theory Spec2Isabelle
  imports Complex_Main "HOL-Library.Sublist"
begin

section \<open>WHODataManager: values held in memory\<close>

text \<open>
  \<^verbatim>\<open>self._data\<close> is whatever \<^verbatim>\<open>json.load\<close> returned: a dict, a list, a string, a number,
  a boolean or \<^verbatim>\<open>None\<close>. A dict is kept as the list of its items in insertion order; a key
  is looked up with \<open>map_of\<close>. Numbers are carried along and never inspected, except for the
  truth value of zero.
\<close>

datatype json =
    JNull
  | JBool bool
  | JNum rat
  | JStr string
  | JArr "json list"
  | JObj "(string \<times> json) list"

text \<open>
  The exceptions of the module. \<open>ValueError\<close> is the one \<^verbatim>\<open>filter_data\<close> raises itself;
  \<open>Failed_to_download\<close> is the \<^verbatim>\<open>Exception("Failed to download data: ...")\<close> that
  \<^verbatim>\<open>download_data\<close> raises around whatever went wrong inside its \<^verbatim>\<open>try\<close> block.
\<close>

datatype py_exn =
    ValueError
  | TypeError
  | AttributeError
  | KeyError
  | JSONDecodeError
  | FileNotFoundError
  | FileExistsError
  | NotADirectoryError
  | IsADirectoryError
  | OSError
  | SystemError
  | RequestException string
  | HTTPError nat
  | Failed_to_download py_exn

definition and_then :: "'e + 'a \<Rightarrow> ('a \<Rightarrow> 'e + 'b) \<Rightarrow> 'e + 'b" where
  "and_then r f = (case r of Inl e \<Rightarrow> Inl e | Inr x \<Rightarrow> f x)"

subsection \<open>The Python operations that \<^verbatim>\<open>filter_data\<close> applies\<close>

text \<open>\<^verbatim>\<open>not x\<close> is \<open>\<not> truthy x\<close>.\<close>

fun truthy :: "json \<Rightarrow> bool" where
  "truthy JNull = False"
| "truthy (JBool b) = b"
| "truthy (JNum n) = (n \<noteq> 0)"
| "truthy (JStr s) = (s \<noteq> [])"
| "truthy (JArr xs) = (xs \<noteq> [])"
| "truthy (JObj kvs) = (kvs \<noteq> [])"

text \<open>
  \<^verbatim>\<open>k in x\<close> for a string \<open>k\<close>: key membership on a dict, element membership on a list,
  the substring test on a string, \<^verbatim>\<open>TypeError\<close> on anything else.
\<close>

fun py_in :: "string \<Rightarrow> json \<Rightarrow> py_exn + bool" where
  "py_in k (JObj kvs) = Inr (map_of kvs k \<noteq> None)"
| "py_in k (JArr xs) = Inr (JStr k \<in> set xs)"
| "py_in k (JStr s) = Inr (sublist k s)"
| "py_in k JNull = Inl TypeError"
| "py_in k (JBool b) = Inl TypeError"
| "py_in k (JNum n) = Inl TypeError"

text \<open>\<^verbatim>\<open>x[k]\<close> for a string \<open>k\<close>: only a dict can be subscripted with a string.\<close>

fun py_getitem :: "json \<Rightarrow> string \<Rightarrow> py_exn + json" where
  "py_getitem (JObj kvs) k = (case map_of kvs k of None \<Rightarrow> Inl KeyError | Some v \<Rightarrow> Inr v)"
| "py_getitem (JArr xs) k = Inl TypeError"
| "py_getitem (JStr s) k = Inl TypeError"
| "py_getitem JNull k = Inl TypeError"
| "py_getitem (JBool b) k = Inl TypeError"
| "py_getitem (JNum n) k = Inl TypeError"

text \<open>
  \<^verbatim>\<open>for e in x\<close>: the elements of a list, the one-character strings of a string, the keys
  of a dict; nothing else is iterable.
\<close>

fun py_iter :: "json \<Rightarrow> py_exn + json list" where
  "py_iter (JArr xs) = Inr xs"
| "py_iter (JStr s) = Inr (map (\<lambda>c. JStr [c]) s)"
| "py_iter (JObj kvs) = Inr (map (\<lambda>kv. JStr (fst kv)) kvs)"
| "py_iter JNull = Inl TypeError"
| "py_iter (JBool b) = Inl TypeError"
| "py_iter (JNum n) = Inl TypeError"

text \<open>
  \<^verbatim>\<open>x.get(k, default)\<close>: the value, or the default for a missing key; only a dict has
  \<^verbatim>\<open>get\<close>. \<^verbatim>\<open>x.get(k)\<close> has the default \<^verbatim>\<open>None\<close>.
\<close>

fun py_get_default :: "json \<Rightarrow> string \<Rightarrow> json \<Rightarrow> py_exn + json" where
  "py_get_default (JObj kvs) k d = Inr (case map_of kvs k of None \<Rightarrow> d | Some v \<Rightarrow> v)"
| "py_get_default (JArr xs) k d = Inl AttributeError"
| "py_get_default (JStr s) k d = Inl AttributeError"
| "py_get_default JNull k d = Inl AttributeError"
| "py_get_default (JBool b) k d = Inl AttributeError"
| "py_get_default (JNum n) k d = Inl AttributeError"

definition py_get :: "json \<Rightarrow> string \<Rightarrow> py_exn + json" where
  "py_get x k = py_get_default x k JNull"

text \<open>\<^verbatim>\<open>len(x)\<close>.\<close>

fun py_len :: "json \<Rightarrow> py_exn + nat" where
  "py_len (JArr xs) = Inr (length xs)"
| "py_len (JStr s) = Inr (length s)"
| "py_len (JObj kvs) = Inr (length kvs)"
| "py_len JNull = Inl TypeError"
| "py_len (JBool b) = Inl TypeError"
| "py_len (JNum n) = Inl TypeError"

subsection \<open>\<^verbatim>\<open>filter_data\<close>\<close>

text \<open>
  The comprehension \<^verbatim>\<open>[e for e in entries if e.get(attr) == p]\<close>, element by element; the
  first element without \<^verbatim>\<open>get\<close> raises. \<open>p\<close> is a string, so the comparison holds exactly
  when the value is that string.
\<close>

fun comprehension :: "string \<Rightarrow> string \<Rightarrow> json list \<Rightarrow> py_exn + json list" where
  "comprehension attr p [] = Inr []"
| "comprehension attr p (e # es) =
     (case py_get e attr of
        Inl x \<Rightarrow> Inl x
      | Inr v \<Rightarrow>
          (case comprehension attr p es of
             Inl x \<Rightarrow> Inl x
           | Inr r \<Rightarrow> Inr (if v = JStr p then e # r else r)))"

text \<open>
  One step \<^verbatim>\<open>if p: filtered_entries = [...]\<close>. The argument is \<^verbatim>\<open>Optional[str]\<close>; the test
  is its truth value, so \<^verbatim>\<open>None\<close> and the empty string both skip the step.
\<close>

definition narrow :: "string \<Rightarrow> string option \<Rightarrow> json \<Rightarrow> py_exn + json" where
  "narrow attr p entries =
     (case p of
        None \<Rightarrow> Inr entries
      | Some s \<Rightarrow>
          if s = [] then Inr entries
          else and_then (py_iter entries)
                 (\<lambda>es. and_then (comprehension attr s es) (\<lambda>r. Inr (JArr r))))"

definition filter_data ::
  "json \<Rightarrow> string option \<Rightarrow> string option \<Rightarrow> string option \<Rightarrow> py_exn + json" where
  "filter_data data spatial_dim time_dimension_value dim1 =
     (if \<not> truthy data then Inl ValueError
      else and_then (py_in ''value'' data) (\<lambda>present.
        if \<not> present then Inl ValueError
        else and_then (py_getitem data ''value'') (\<lambda>filtered_entries.
          and_then (narrow ''SpatialDim'' spatial_dim filtered_entries) (\<lambda>filtered_entries.
          and_then (narrow ''TimeDimensionValue'' time_dimension_value filtered_entries)
            (\<lambda>filtered_entries.
          narrow ''Dim1'' dim1 filtered_entries)))))"

text \<open>
  \<^verbatim>\<open>get_filtered_data\<close> calls \<^verbatim>\<open>filter_data\<close>, takes
  \<^verbatim>\<open>len(self._data.get('value', []))\<close>, prints the two counts and returns the filtered
  entries. The printed line is returned as the pair (matched, total).
\<close>

definition get_filtered_data ::
  "json \<Rightarrow> string option \<Rightarrow> string option \<Rightarrow> string option \<Rightarrow> py_exn + (json \<times> nat \<times> nat)" where
  "get_filtered_data data spatial_dim time_dimension_value dim1 =
     and_then (filter_data data spatial_dim time_dimension_value dim1) (\<lambda>filtered_data.
       and_then (py_get_default data ''value'' (JArr [])) (\<lambda>v.
         and_then (py_len v) (\<lambda>total_count.
           and_then (py_len filtered_data) (\<lambda>n.
             Inr (filtered_data, n, total_count)))))"

text \<open>
  The three parameters have the default \<^verbatim>\<open>None\<close>: a call may leave an argument out or pass
  a value for it.
\<close>

datatype 'a arg = Omitted | Passed 'a

definition arg_or :: "'a \<Rightarrow> 'a arg \<Rightarrow> 'a" where
  "arg_or d a = (case a of Omitted \<Rightarrow> d | Passed x \<Rightarrow> x)"

definition call_filter_data ::
  "json \<Rightarrow> string option arg \<Rightarrow> string option arg \<Rightarrow> string option arg \<Rightarrow> py_exn + json" where
  "call_filter_data data a b c =
     filter_data data (arg_or None a) (arg_or None b) (arg_or None c)"

subsection \<open>Records and predicates\<close>

text \<open>
  A record is a dict. \<open>has_value e attr v\<close>: the record's value for the attribute is the
  string \<open>v\<close> (a missing attribute reads as \<^verbatim>\<open>None\<close>, which is no string).
  \<open>satisfies e attr p\<close> is the predicate a caller supplies for one attribute: nothing for
  \<^verbatim>\<open>None\<close>, equality with the expected value otherwise. \<open>passes attr p e\<close> is what one
  step of \<^verbatim>\<open>filter_data\<close> keeps: the step runs only for an argument that is true in
  Python's sense, \<open>truthy_arg\<close>.
\<close>

fun is_record :: "json \<Rightarrow> bool" where
  "is_record (JObj kvs) = True"
| "is_record JNull = False"
| "is_record (JBool b) = False"
| "is_record (JNum n) = False"
| "is_record (JStr s) = False"
| "is_record (JArr xs) = False"

definition has_value :: "json \<Rightarrow> string \<Rightarrow> string \<Rightarrow> bool" where
  "has_value e attr v = (py_get e attr = Inr (JStr v))"

definition satisfies :: "json \<Rightarrow> string \<Rightarrow> string option \<Rightarrow> bool" where
  "satisfies e attr p = (case p of None \<Rightarrow> True | Some v \<Rightarrow> has_value e attr v)"

definition truthy_arg :: "string option \<Rightarrow> bool" where
  "truthy_arg p = (case p of None \<Rightarrow> False | Some s \<Rightarrow> s \<noteq> [])"

definition passes :: "string \<Rightarrow> string option \<Rightarrow> json \<Rightarrow> bool" where
  "passes attr p e = (if truthy_arg p then has_value e attr (the p) else True)"


section \<open>Construction: cache file, download, load\<close>

text \<open>
  The file system and the network are outside the module; the model keeps what the code
  can observe of them: POSIX paths, no symbolic links, no permissions, no limit on the
  length of a name. The working directory of a world is one of its directories.

  A path, as \<^verbatim>\<open>pathlib\<close> holds it, is its list of parts; an absolute path starts with the
  part \<^verbatim>\<open>/\<close>. \<^verbatim>\<open>Path(s)\<close> splits the string at the separators and drops empty parts and
  \<^verbatim>\<open>.\<close>; \<^verbatim>\<open>p / q\<close> appends the parts of \<open>q\<close>, or is \<open>q\<close> when \<open>q\<close> is absolute. A part \<^verbatim>\<open>..\<close>
  stays in the path and is followed by the operating system.

  A location is a place in the file tree, the names from the root down. The world has
  the working directory, the file tree (a location holds a file with its bytes or a
  directory; the root is a directory) and the list of every GET that was sent, in order.
\<close>

type_synonym path = "string list"

type_synonym location = "string list"

type_synonym bytes = string

datatype node = File bytes | Dir

record world =
  cwd :: location
  fs :: "location \<Rightarrow> node option"
  sent :: "string list"

text \<open>
  What the outside answers: \<^verbatim>\<open>requests.get\<close> raises or returns a response with a status
  code and a body; \<^verbatim>\<open>json.load\<close> returns a value or raises a decoding error (\<open>None\<close>);
  \<^verbatim>\<open>f.write\<close> completes (\<open>None\<close>) or raises \<^verbatim>\<open>OSError\<close> after \<open>k\<close> bytes have reached the
  file (\<open>Some k\<close>).
\<close>

datatype response = Response (status_code: nat) (content: bytes)

datatype get_result = Raises py_exn | Returns response

record env =
  http_get :: "string \<Rightarrow> get_result"
  json_load :: "bytes \<Rightarrow> json option"
  write_cut :: "nat option"

text \<open>The members set by \<^verbatim>\<open>__init__\<close> before the data is loaded, and the loaded manager.\<close>

record config =
  data_dir :: path
  filename :: string
  filepath :: path
  url :: string

record manager = config +
  self_data :: json

subsection \<open>Paths\<close>

fun split_sep :: "string \<Rightarrow> string list" where
  "split_sep [] = [[]]"
| "split_sep (c # cs) =
     (if c = CHR ''/'' then [] # split_sep cs
      else (case split_sep cs of [] \<Rightarrow> [[c]] | n # ns \<Rightarrow> (c # n) # ns))"

definition Path :: "string \<Rightarrow> path" where
  "Path s =
     (case s of [] \<Rightarrow> [] | c # cs \<Rightarrow> if c = CHR ''/'' then [''/''] else [])
     @ filter (\<lambda>n. n \<noteq> [] \<and> n \<noteq> ''.'') (split_sep s)"

definition joinpath :: "path \<Rightarrow> path \<Rightarrow> path" where
  "joinpath p q = (case q of [] \<Rightarrow> p | c # cs \<Rightarrow> if c = ''/'' then q else p @ q)"

definition init_members :: "string \<Rightarrow> string \<Rightarrow> config" where
  "init_members dir name =
     \<lparr>data_dir = Path dir, filename = name, filepath = joinpath (Path dir) (Path name),
      url = ''https://ghoapi.azureedge.net/api/WHOSIS_000001''\<rparr>"

subsection \<open>What the operating system does with a path\<close>

definition node_at :: "(location \<Rightarrow> node option) \<Rightarrow> location \<Rightarrow> node option" where
  "node_at f q = (if q = [] then Some Dir else f q)"

text \<open>
  Following the parts of a path from a location: every step starts in a directory;
  \<^verbatim>\<open>..\<close> goes to the parent. The last part need not exist.
\<close>

fun walk :: "(location \<Rightarrow> node option) \<Rightarrow> location \<Rightarrow> string list \<Rightarrow> py_exn + location" where
  "walk f cur [] = Inr cur"
| "walk f cur (c # cs) =
     (case node_at f cur of
        None \<Rightarrow> Inl FileNotFoundError
      | Some (File b) \<Rightarrow> Inl NotADirectoryError
      | Some Dir \<Rightarrow> walk f (if c = ''..'' then butlast cur else cur @ [c]) cs)"

text \<open>
  Where a path leads, from the root for an absolute path and from the working directory
  otherwise. A path with a null character in it is refused with \<^verbatim>\<open>ValueError\<close>, which
  \<^verbatim>\<open>exists\<close> and \<^verbatim>\<open>is_dir\<close> answer with \<^verbatim>\<open>False\<close>.
\<close>

definition embedded_null :: "path \<Rightarrow> bool" where
  "embedded_null p = list_ex (\<lambda>n. CHR 0x00 \<in> set n) p"

definition locate :: "(location \<Rightarrow> node option) \<Rightarrow> location \<Rightarrow> path \<Rightarrow> py_exn + location" where
  "locate f d p =
     (if embedded_null p then Inl ValueError
      else
        (case p of
           [] \<Rightarrow> walk f d []
         | c # cs \<Rightarrow> if c = ''/'' then walk f [] cs else walk f d (c # cs)))"

text \<open>\<^verbatim>\<open>Path.exists()\<close> and \<^verbatim>\<open>Path.is_dir()\<close>\<close>

definition exists_path :: "(location \<Rightarrow> node option) \<Rightarrow> location \<Rightarrow> path \<Rightarrow> bool" where
  "exists_path f d p = (case locate f d p of Inl x \<Rightarrow> False | Inr q \<Rightarrow> node_at f q \<noteq> None)"

definition is_dir :: "(location \<Rightarrow> node option) \<Rightarrow> location \<Rightarrow> path \<Rightarrow> bool" where
  "is_dir f d p = (case locate f d p of Inl x \<Rightarrow> False | Inr q \<Rightarrow> node_at f q = Some Dir)"

text \<open>\<^verbatim>\<open>os.mkdir(p)\<close> makes one directory.\<close>

definition os_mkdir ::
  "(location \<Rightarrow> node option) \<Rightarrow> location \<Rightarrow> path \<Rightarrow> py_exn + (location \<Rightarrow> node option)" where
  "os_mkdir f d p =
     (case locate f d p of
        Inl x \<Rightarrow> Inl x
      | Inr q \<Rightarrow> (case node_at f q of None \<Rightarrow> Inr (f(q \<mapsto> Dir)) | Some n \<Rightarrow> Inl FileExistsError))"

text \<open>
  \<^verbatim>\<open>Path.mkdir(parents=True, exist_ok=True)\<close> as \<^verbatim>\<open>pathlib\<close> does it, on the parts in reverse
  so that the parent is the tail: try \<^verbatim>\<open>os.mkdir\<close>; on \<^verbatim>\<open>FileNotFoundError\<close> make the
  parent in the same way and try once more; any other error is passed over when the path
  is a directory by then.
\<close>

fun mkdir_rev ::
  "(location \<Rightarrow> node option) \<Rightarrow> location \<Rightarrow> string list \<Rightarrow> py_exn option \<times> (location \<Rightarrow> node option)" where
  "mkdir_rev f d [] =
     (case os_mkdir f d [] of
        Inr f' \<Rightarrow> (None, f')
      | Inl x \<Rightarrow>
          if x = FileNotFoundError then (Some x, f)
          else if is_dir f d [] then (None, f) else (Some x, f))"
| "mkdir_rev f d (c # rp) =
     (case os_mkdir f d (rev (c # rp)) of
        Inr f' \<Rightarrow> (None, f')
      | Inl x \<Rightarrow>
          if x = FileNotFoundError then
            (if c = ''/'' \<and> rp = [] then (Some x, f)
             else
               (case mkdir_rev f d rp of
                  (Some y, f1) \<Rightarrow> (Some y, f1)
                | (None, f1) \<Rightarrow>
                    (case os_mkdir f1 d (rev (c # rp)) of
                       Inr f2 \<Rightarrow> (None, f2)
                     | Inl y \<Rightarrow>
                         if y = FileNotFoundError then (Some y, f1)
                         else if is_dir f1 d (rev (c # rp)) then (None, f1) else (Some y, f1))))
          else if is_dir f d (rev (c # rp)) then (None, f) else (Some x, f))"

definition ensure_data_directory ::
  "config \<Rightarrow> (location \<Rightarrow> node option) \<Rightarrow> location \<Rightarrow> py_exn option \<times> (location \<Rightarrow> node option)" where
  "ensure_data_directory self f d = mkdir_rev f d (rev (data_dir self))"

text \<open>
  \<^verbatim>\<open>open(p, 'wb')\<close> creates the file or truncates it; the open file is the location it
  is at.
\<close>

definition open_wb ::
  "(location \<Rightarrow> node option) \<Rightarrow> location \<Rightarrow> path \<Rightarrow> py_exn + ((location \<Rightarrow> node option) \<times> location)" where
  "open_wb f d p =
     (case locate f d p of
        Inl x \<Rightarrow> Inl x
      | Inr q \<Rightarrow>
          (case node_at f q of
             Some Dir \<Rightarrow> Inl IsADirectoryError
           | Some (File b) \<Rightarrow> Inr (f(q \<mapsto> File []), q)
           | None \<Rightarrow> Inr (f(q \<mapsto> File []), q)))"

text \<open>\<^verbatim>\<open>f.write(content)\<close> and the close at the end of the \<^verbatim>\<open>with\<close> block.\<close>

definition write_file ::
  "env \<Rightarrow> (location \<Rightarrow> node option) \<Rightarrow> location \<Rightarrow> bytes \<Rightarrow> py_exn option \<times> (location \<Rightarrow> node option)" where
  "write_file e f q body =
     (case write_cut e of
        None \<Rightarrow> (None, f(q \<mapsto> File body))
      | Some k \<Rightarrow> (Some OSError, f(q \<mapsto> File (take k body))))"

text \<open>
  \<^verbatim>\<open>response.raise_for_status()\<close> of the requests library: \<^verbatim>\<open>HTTPError\<close> for a client
  error (4xx) or a server error (5xx) status, nothing otherwise.
\<close>

definition raise_for_status :: "response \<Rightarrow> py_exn + unit" where
  "raise_for_status r =
     (if 400 \<le> status_code r \<and> status_code r < 600 then Inl (HTTPError (status_code r))
      else Inr ())"

subsection \<open>The methods\<close>

definition download_data :: "config \<Rightarrow> env \<Rightarrow> world \<Rightarrow> py_exn option \<times> world" where
  "download_data self e w =
     (let w1 = w\<lparr>sent := sent w @ [url self]\<rparr> in
      case http_get e (url self) of
        Raises x \<Rightarrow> (Some (Failed_to_download x), w1)
      | Returns response \<Rightarrow>
          (case raise_for_status response of
             Inl x \<Rightarrow> (Some (Failed_to_download x), w1)
           | Inr u \<Rightarrow>
               (case ensure_data_directory self (fs w1) (cwd w1) of
                  (Some x, f1) \<Rightarrow> (Some (Failed_to_download x), w1\<lparr>fs := f1\<rparr>)
                | (None, f1) \<Rightarrow>
                    (case open_wb f1 (cwd w1) (filepath self) of
                       Inl x \<Rightarrow> (Some (Failed_to_download x), w1\<lparr>fs := f1\<rparr>)
                     | Inr (f2, q) \<Rightarrow>
                         (case write_file e f2 q (content response) of
                            (Some x, f3) \<Rightarrow> (Some (Failed_to_download x), w1\<lparr>fs := f3\<rparr>)
                          | (None, f3) \<Rightarrow> (None, w1\<lparr>fs := f3\<rparr>))))))"

text \<open>\<^verbatim>\<open>with open(p, 'r', encoding='utf-8') as f: return json.load(f)\<close>\<close>

definition load_file ::
  "env \<Rightarrow> (location \<Rightarrow> node option) \<Rightarrow> location \<Rightarrow> path \<Rightarrow> py_exn + json" where
  "load_file e f d p =
     (case locate f d p of
        Inl x \<Rightarrow> Inl x
      | Inr q \<Rightarrow>
          (case node_at f q of
             None \<Rightarrow> Inl FileNotFoundError
           | Some Dir \<Rightarrow> Inl IsADirectoryError
           | Some (File b) \<Rightarrow>
               (case json_load e b of None \<Rightarrow> Inl JSONDecodeError | Some j \<Rightarrow> Inr j)))"

definition initialize_data :: "config \<Rightarrow> env \<Rightarrow> world \<Rightarrow> (py_exn + json) \<times> world" where
  "initialize_data self e w =
     (if \<not> exists_path (fs w) (cwd w) (filepath self) then
        (case download_data self e w of
           (Some x, w') \<Rightarrow> (Inl x, w')
         | (None, w') \<Rightarrow> (load_file e (fs w') (cwd w') (filepath self), w'))
      else (load_file e (fs w) (cwd w) (filepath self), w))"

text \<open>The constructor \<^verbatim>\<open>WHODataManager(data_dir, filename)\<close>.\<close>

definition WHODataManager :: "string \<Rightarrow> string \<Rightarrow> env \<Rightarrow> world \<Rightarrow> (py_exn + manager) \<times> world" where
  "WHODataManager dir name e w =
     (let self = init_members dir name in
      case initialize_data self e w of
        (Inl x, w') \<Rightarrow> (Inl x, w')
      | (Inr j, w') \<Rightarrow> (Inr (config.extend self (manager.fields j)), w'))"

section \<open>Objects and references\<close>

text \<open>
  Python's lists and dicts are objects that several references can share. To say that a
  call leaves the loaded data alone, the same code is modelled once more over a store:
  a value is immediate or a reference, an object is a list, a dict or an instance with
  its attributes.
\<close>

type_synonym addr = nat

datatype pyval = VNone | VBool bool | VNum rat | VStr string | VRef addr

datatype pyobj =
    OList "pyval list"
  | ODict "(string \<times> pyval) list"
  | OInstance "(string \<times> pyval) list"

type_synonym heap = "pyobj list"

text \<open>A reference outside the store does not occur in Python; reading one answers \<open>SystemError\<close>.\<close>

definition lookup :: "heap \<Rightarrow> addr \<Rightarrow> pyobj option" where
  "lookup h a = (if a < length h then Some (h ! a) else None)"

text \<open>A new object gets the next address; nothing that exists is touched.\<close>

definition alloc :: "heap \<Rightarrow> pyobj \<Rightarrow> pyval \<times> heap" where
  "alloc h obj = (VRef (length h), h @ [obj])"

text \<open>
  \<open>represents h v j\<close>: in the store \<open>h\<close> the value \<open>v\<close> is the JSON value \<open>j\<close>, that is what
  \<^verbatim>\<open>json.load\<close> built for the document \<open>j\<close>.
\<close>

fun represents :: "heap \<Rightarrow> pyval \<Rightarrow> json \<Rightarrow> bool" where
  "represents h v JNull = (v = VNone)"
| "represents h v (JBool b) = (v = VBool b)"
| "represents h v (JNum n) = (v = VNum n)"
| "represents h v (JStr s) = (v = VStr s)"
| "represents h v (JArr js) =
     (case v of
        VRef a \<Rightarrow>
          (case lookup h a of
             Some (OList vs) \<Rightarrow> list_all2 (\<lambda>x j. represents h x j) vs js
           | _ \<Rightarrow> False)
      | _ \<Rightarrow> False)"
| "represents h v (JObj kjs) =
     (case v of
        VRef a \<Rightarrow>
          (case lookup h a of
             Some (ODict kvs) \<Rightarrow>
               list_all2 (\<lambda>kv kj. fst kv = fst kj \<and> represents h (snd kv) (snd kj)) kvs kjs
           | _ \<Rightarrow> False)
      | _ \<Rightarrow> False)"

text \<open>\<^verbatim>\<open>self._data\<close>: an attribute of an instance.\<close>

fun h_getattr :: "heap \<Rightarrow> pyval \<Rightarrow> string \<Rightarrow> py_exn + pyval" where
  "h_getattr h (VRef a) k =
     (case lookup h a of
        None \<Rightarrow> Inl SystemError
      | Some (OInstance attrs) \<Rightarrow>
          (case map_of attrs k of None \<Rightarrow> Inl AttributeError | Some v \<Rightarrow> Inr v)
      | Some (OList xs) \<Rightarrow> Inl AttributeError
      | Some (ODict kvs) \<Rightarrow> Inl AttributeError)"
| "h_getattr h VNone k = Inl AttributeError"
| "h_getattr h (VBool b) k = Inl AttributeError"
| "h_getattr h (VNum n) k = Inl AttributeError"
| "h_getattr h (VStr s) k = Inl AttributeError"

text \<open>The operations of \<^verbatim>\<open>filter_data\<close> once more, on references.\<close>

fun h_truthy :: "heap \<Rightarrow> pyval \<Rightarrow> py_exn + bool" where
  "h_truthy h VNone = Inr False"
| "h_truthy h (VBool b) = Inr b"
| "h_truthy h (VNum n) = Inr (n \<noteq> 0)"
| "h_truthy h (VStr s) = Inr (s \<noteq> [])"
| "h_truthy h (VRef a) =
     (case lookup h a of
        None \<Rightarrow> Inl SystemError
      | Some (OList xs) \<Rightarrow> Inr (xs \<noteq> [])
      | Some (ODict kvs) \<Rightarrow> Inr (kvs \<noteq> [])
      | Some (OInstance attrs) \<Rightarrow> Inr True)"

fun h_in :: "string \<Rightarrow> heap \<Rightarrow> pyval \<Rightarrow> py_exn + bool" where
  "h_in k h (VRef a) =
     (case lookup h a of
        None \<Rightarrow> Inl SystemError
      | Some (ODict kvs) \<Rightarrow> Inr (map_of kvs k \<noteq> None)
      | Some (OList xs) \<Rightarrow> Inr (VStr k \<in> set xs)
      | Some (OInstance attrs) \<Rightarrow> Inl TypeError)"
| "h_in k h (VStr s) = Inr (sublist k s)"
| "h_in k h VNone = Inl TypeError"
| "h_in k h (VBool b) = Inl TypeError"
| "h_in k h (VNum n) = Inl TypeError"

fun h_getitem :: "heap \<Rightarrow> pyval \<Rightarrow> string \<Rightarrow> py_exn + pyval" where
  "h_getitem h (VRef a) k =
     (case lookup h a of
        None \<Rightarrow> Inl SystemError
      | Some (ODict kvs) \<Rightarrow> (case map_of kvs k of None \<Rightarrow> Inl KeyError | Some v \<Rightarrow> Inr v)
      | Some (OList xs) \<Rightarrow> Inl TypeError
      | Some (OInstance attrs) \<Rightarrow> Inl TypeError)"
| "h_getitem h (VStr s) k = Inl TypeError"
| "h_getitem h VNone k = Inl TypeError"
| "h_getitem h (VBool b) k = Inl TypeError"
| "h_getitem h (VNum n) k = Inl TypeError"

fun h_iter :: "heap \<Rightarrow> pyval \<Rightarrow> py_exn + pyval list" where
  "h_iter h (VRef a) =
     (case lookup h a of
        None \<Rightarrow> Inl SystemError
      | Some (OList xs) \<Rightarrow> Inr xs
      | Some (ODict kvs) \<Rightarrow> Inr (map (\<lambda>kv. VStr (fst kv)) kvs)
      | Some (OInstance attrs) \<Rightarrow> Inl TypeError)"
| "h_iter h (VStr s) = Inr (map (\<lambda>c. VStr [c]) s)"
| "h_iter h VNone = Inl TypeError"
| "h_iter h (VBool b) = Inl TypeError"
| "h_iter h (VNum n) = Inl TypeError"

fun h_get_default :: "heap \<Rightarrow> pyval \<Rightarrow> string \<Rightarrow> pyval \<Rightarrow> py_exn + pyval" where
  "h_get_default h (VRef a) k d =
     (case lookup h a of
        None \<Rightarrow> Inl SystemError
      | Some (ODict kvs) \<Rightarrow> Inr (case map_of kvs k of None \<Rightarrow> d | Some v \<Rightarrow> v)
      | Some (OList xs) \<Rightarrow> Inl AttributeError
      | Some (OInstance attrs) \<Rightarrow> Inl AttributeError)"
| "h_get_default h (VStr s) k d = Inl AttributeError"
| "h_get_default h VNone k d = Inl AttributeError"
| "h_get_default h (VBool b) k d = Inl AttributeError"
| "h_get_default h (VNum n) k d = Inl AttributeError"

fun h_len :: "heap \<Rightarrow> pyval \<Rightarrow> py_exn + nat" where
  "h_len h (VRef a) =
     (case lookup h a of
        None \<Rightarrow> Inl SystemError
      | Some (OList xs) \<Rightarrow> Inr (length xs)
      | Some (ODict kvs) \<Rightarrow> Inr (length kvs)
      | Some (OInstance attrs) \<Rightarrow> Inl TypeError)"
| "h_len h (VStr s) = Inr (length s)"
| "h_len h VNone = Inl TypeError"
| "h_len h (VBool b) = Inl TypeError"
| "h_len h (VNum n) = Inl TypeError"

text \<open>
  The comprehension reads the elements and keeps references to the records it selects;
  \<open>h_narrow\<close> allocates the new list for them.
\<close>

fun h_comprehension :: "heap \<Rightarrow> string \<Rightarrow> string \<Rightarrow> pyval list \<Rightarrow> py_exn + pyval list" where
  "h_comprehension h attr p [] = Inr []"
| "h_comprehension h attr p (e # es) =
     (case h_get_default h e attr VNone of
        Inl x \<Rightarrow> Inl x
      | Inr v \<Rightarrow>
          (case h_comprehension h attr p es of
             Inl x \<Rightarrow> Inl x
           | Inr r \<Rightarrow> Inr (if v = VStr p then e # r else r)))"

definition h_narrow :: "string \<Rightarrow> string option \<Rightarrow> pyval \<Rightarrow> heap \<Rightarrow> (py_exn + pyval) \<times> heap" where
  "h_narrow attr p entries h =
     (case p of
        None \<Rightarrow> (Inr entries, h)
      | Some s \<Rightarrow>
          if s = [] then (Inr entries, h)
          else (case and_then (h_iter h entries) (h_comprehension h attr s) of
                  Inl x \<Rightarrow> (Inl x, h)
                | Inr r \<Rightarrow> (case alloc h (OList r) of (v, h') \<Rightarrow> (Inr v, h'))))"

text \<open>Sequencing with the store threaded through; an exception ends the call.\<close>

definition h_then ::
  "(py_exn + 'a) \<times> heap \<Rightarrow> ('a \<Rightarrow> heap \<Rightarrow> (py_exn + 'b) \<times> heap) \<Rightarrow> (py_exn + 'b) \<times> heap" where
  "h_then m f = (case m of (Inl x, h) \<Rightarrow> (Inl x, h) | (Inr v, h) \<Rightarrow> f v h)"

definition h_filter_data ::
  "pyval \<Rightarrow> string option \<Rightarrow> string option \<Rightarrow> string option \<Rightarrow> heap \<Rightarrow> (py_exn + pyval) \<times> heap" where
  "h_filter_data self spatial_dim time_dimension_value dim1 h =
     h_then (h_getattr h self ''_data'', h) (\<lambda>d h.
     h_then (h_truthy h d, h) (\<lambda>loaded h.
       if \<not> loaded then (Inl ValueError, h)
       else h_then (h_in ''value'' h d, h) (\<lambda>present h.
         if \<not> present then (Inl ValueError, h)
         else h_then (h_getitem h d ''value'', h) (\<lambda>filtered_entries h.
           h_then (h_narrow ''SpatialDim'' spatial_dim filtered_entries h) (\<lambda>filtered_entries h.
           h_then (h_narrow ''TimeDimensionValue'' time_dimension_value filtered_entries h)
             (\<lambda>filtered_entries h.
           h_narrow ''Dim1'' dim1 filtered_entries h))))))"

text \<open>
  \<^verbatim>\<open>self._data.get('value', [])\<close> builds its default, a new empty list, before the call.
\<close>

definition h_get_filtered_data ::
  "pyval \<Rightarrow> string option \<Rightarrow> string option \<Rightarrow> string option \<Rightarrow> heap \<Rightarrow>
     (py_exn + (pyval \<times> nat \<times> nat)) \<times> heap" where
  "h_get_filtered_data self spatial_dim time_dimension_value dim1 h =
     h_then (h_filter_data self spatial_dim time_dimension_value dim1 h) (\<lambda>filtered_data h.
     h_then (h_getattr h self ''_data'', h) (\<lambda>d h.
     h_then (Inr (fst (alloc h (OList []))), snd (alloc h (OList []))) (\<lambda>empty h.
     h_then (h_get_default h d ''value'' empty, h) (\<lambda>v h.
     h_then (h_len h v, h) (\<lambda>total_count h.
     h_then (h_len h filtered_data, h) (\<lambda>n h.
       (Inr (filtered_data, n, total_count), h)))))))"

text \<open>
  Any number of queries through the public method, one after the other; the caller may
  catch what a query raises and go on.
\<close>

fun queries ::
  "pyval \<Rightarrow> (string option \<times> string option \<times> string option) list \<Rightarrow> heap \<Rightarrow> heap" where
  "queries self [] h = h"
| "queries self ((s, t, p) # qs) h = queries self qs (snd (h_get_filtered_data self s t p h))"


section \<open>Sample data\<close>

text \<open>Two records of the WHO data set, the loaded document around them, and records for one attribute.\<close>

definition guy :: json where
  "guy = JObj [(''SpatialDim'', JStr ''GUY''), (''TimeDimensionValue'', JStr ''2001''),
               (''Dim1'', JStr ''SEX_BTSX''), (''NumericValue'', JNum (647 / 10))]"

definition usa :: json where
  "usa = JObj [(''SpatialDim'', JStr ''USA''), (''TimeDimensionValue'', JStr ''2001''),
               (''Dim1'', JStr ''SEX_BTSX''), (''NumericValue'', JNum (782 / 10))]"

definition scenario :: json where
  "scenario = JObj [(''value'', JArr [guy, usa])]"


text \<open>The same document as objects in a store, with the manager instance at address 0.\<close>

definition scenario_heap :: heap where
  "scenario_heap =
     [OInstance [(''url'', VStr ''https://ghoapi.azureedge.net/api/WHOSIS_000001''),
                 (''_data'', VRef 1)],
      ODict [(''value'', VRef 2)],
      OList [VRef 3, VRef 4],
      ODict [(''SpatialDim'', VStr ''GUY''), (''TimeDimensionValue'', VStr ''2001''),
             (''Dim1'', VStr ''SEX_BTSX''), (''NumericValue'', VNum (647 / 10))],
      ODict [(''SpatialDim'', VStr ''USA''), (''TimeDimensionValue'', VStr ''2001''),
             (''Dim1'', VStr ''SEX_BTSX''), (''NumericValue'', VNum (782 / 10))]]"

text \<open>
  Surroundings for the constructor: a parser that knows two documents; servers that
  answer 200, 500 and 300; a disk that fails after one byte; worlds, with the working
  directory \<^verbatim>\<open>/work\<close>, without a cache file and with a cache file that does not parse.
\<close>

definition who_url :: string where
  "who_url = ''https://ghoapi.azureedge.net/api/WHOSIS_000001''"

definition sample_load :: "bytes \<Rightarrow> json option" where
  "sample_load b =
     (if b = ''{}'' then Some (JObj []) else if b = ''[]'' then Some (JArr []) else None)"

definition reachable :: env where
  "reachable = \<lparr>http_get = (\<lambda>u. Returns (Response 200 ''{}'')), json_load = sample_load,
                 write_cut = None\<rparr>"

definition server_error :: env where
  "server_error = \<lparr>http_get = (\<lambda>u. Returns (Response 500 ''Internal Server Error'')),
                    json_load = sample_load, write_cut = None\<rparr>"

definition multiple_choices :: env where
  "multiple_choices = \<lparr>http_get = (\<lambda>u. Returns (Response 300 ''[]'')),
                        json_load = sample_load, write_cut = None\<rparr>"

definition disk_full :: env where
  "disk_full = \<lparr>http_get = (\<lambda>u. Returns (Response 200 ''{}'')), json_load = sample_load,
                 write_cut = Some 1\<rparr>"

definition no_cache :: world where
  "no_cache = \<lparr>cwd = [''work''], fs = [[''work''] \<mapsto> Dir], sent = []\<rparr>"

definition malformed_cache :: world where
  "malformed_cache =
     \<lparr>cwd = [''work''],
      fs = [[''work''] \<mapsto> Dir, [''work'', ''Data''] \<mapsto> Dir,
            [''work'', ''Data'', ''WHOSIS_000001.json''] \<mapsto> File ''{''],
      sent = []\<rparr>"

section \<open>Properties of \<^verbatim>\<open>filter_data\<close>\<close>

subsection \<open>The filter on a loaded record sequence\<close>

lemma and_then_simps [simp]:
  "and_then (Inl e) f = Inl e" "and_then (Inr x) f = f x"
  by (simp_all add: and_then_def)

lemma getitem_ok:
  "py_getitem data k = Inr v \<Longrightarrow> truthy data \<and> py_in k data = Inr True"
  by (cases data) (auto split: option.splits)

lemma filter_data_chain:
  assumes "py_getitem data ''value'' = Inr v"
  shows "filter_data data s t p =
    and_then (narrow ''SpatialDim'' s v) (\<lambda>x.
      and_then (narrow ''TimeDimensionValue'' t x) (narrow ''Dim1'' p))"
  using getitem_ok[OF assms] assms by (simp add: filter_data_def)

lemma comprehension_records:
  "list_all is_record es \<Longrightarrow>
   comprehension a v es = Inr (filter (\<lambda>e. has_value e a v) es)"
proof (induction es)
  case Nil
  then show ?case by simp
next
  case (Cons e es)
  then obtain kvs where "e = JObj kvs" by (cases e) auto
  with Cons show ?case by (simp add: has_value_def py_get_def)
qed

lemma passes_simps:
  "passes a None e = True"
  "passes a (Some s) e = (s = [] \<or> has_value e a s)"
  by (auto simp: passes_def truthy_arg_def)

lemma narrow_records:
  "list_all is_record es \<Longrightarrow> narrow a p (JArr es) = Inr (JArr (filter (passes a p) es))"
  by (cases p) (auto simp: narrow_def passes_simps comprehension_records intro: filter_cong)

lemma list_all_filter: "list_all P xs \<Longrightarrow> list_all P (filter Q xs)"
  by (induction xs) auto

text \<open>
  On a document whose \<^verbatim>\<open>'value'\<close> is a list of records, \<^verbatim>\<open>filter_data\<close> returns the records
  that pass all three steps, in their order.
\<close>

lemma filter_data_records:
  assumes "py_getitem data ''value'' = Inr (JArr es)" "list_all is_record es"
  shows "filter_data data s t p = Inr (JArr (filter (\<lambda>e. passes ''SpatialDim'' s e \<and>
            passes ''TimeDimensionValue'' t e \<and> passes ''Dim1'' p e) es))"
proof -
  have "filter_data data s t p = Inr (JArr (filter (passes ''Dim1'' p)
          (filter (passes ''TimeDimensionValue'' t) (filter (passes ''SpatialDim'' s) es))))"
    using assms by (simp add: filter_data_chain narrow_records list_all_filter)
  then show ?thesis by (simp add: conj_commute conj_left_commute)
qed

lemma comprehension_exn: "comprehension a v es = Inl x \<Longrightarrow> x = AttributeError"
proof (induction es)
  case Nil then show ?case by simp
next
  case (Cons e es)
  then show ?case
    by (cases e) (auto simp: py_get_def split: sum.splits)
qed

lemma py_iter_exn: "py_iter v = Inl x \<Longrightarrow> x = TypeError"
  by (cases v) auto

lemma narrow_exn: "narrow a p v = Inl x \<Longrightarrow> x = TypeError \<or> x = AttributeError"
  by (auto simp: narrow_def and_then_def split: option.splits if_splits sum.splits
      dest: comprehension_exn py_iter_exn)

lemma narrow_chain_not_ValueError:
  "and_then (narrow a s v) (\<lambda>x. and_then (narrow b t x) (narrow c p)) \<noteq> Inl ValueError"
  by (auto simp: and_then_def split: sum.splits dest: narrow_exn)

text \<open>
  Outside that shape the calls raise other exceptions: a list element that is no dict has
  no \<^verbatim>\<open>get\<close>, a number cannot be searched with \<^verbatim>\<open>in\<close>, and a list that contains the string
  \<^verbatim>\<open>'value'\<close> passes the test and fails at the subscript.
\<close>

lemma filter_data_outside_the_data_model:
  "filter_data (JObj [(''value'', JArr [JNum 5])]) (Some ''GUY'') None None = Inl AttributeError"
  "filter_data (JNum 5) None None None = Inl TypeError"
  "filter_data (JArr [JStr ''value'']) None None None = Inl TypeError"
  by (simp_all add: filter_data_def narrow_def py_get_def)

lemma satisfies_passes:
  "p \<noteq> Some [] \<Longrightarrow> passes a p e = satisfies e a p"
  by (cases p) (auto simp: passes_simps satisfies_def)

lemma narrow_empty_string: "narrow a (Some []) = narrow a None"
  by (rule ext) (simp add: narrow_def)

lemma filter_data_falsy_eq:
  "filter_data data (Some []) t p = filter_data data None t p"
  "filter_data data s (Some []) p = filter_data data s None p"
  "filter_data data s t (Some []) = filter_data data s t None"
  by (simp_all add: filter_data_def narrow_empty_string cong: if_cong)


subsection \<open>Filter conjunction\<close>

text \<open>
  C1, with the empty string set apart. On a loaded record sequence and for predicates
  that are \<^verbatim>\<open>None\<close> or a non-empty string, \<^verbatim>\<open>filter_data\<close> returns normally, and a record
  is in the result if and only if it is in the loaded sequence and, for every attribute
  with a supplied predicate, its value for the attribute equals the expected value:
  every record of the result satisfies all predicates and no record outside does.
\<close>

theorem filter_conjunction:
  assumes "py_getitem data ''value'' = Inr (JArr es)"
    and "list_all is_record es"
    and "spatial_dim \<noteq> Some []" and "time_dimension_value \<noteq> Some []" and "dim1 \<noteq> Some []"
  shows "\<exists>ys. filter_data data spatial_dim time_dimension_value dim1 = Inr (JArr ys) \<and>
           (\<forall>e. e \<in> set ys \<longleftrightarrow>
                e \<in> set es \<and> satisfies e ''SpatialDim'' spatial_dim \<and>
                satisfies e ''TimeDimensionValue'' time_dimension_value \<and>
                satisfies e ''Dim1'' dim1)"
  using assms by (simp add: filter_data_records satisfies_passes)

theorem filter_conjunction_witness:
  "py_getitem scenario ''value'' = Inr (JArr [guy, usa]) \<and> list_all is_record [guy, usa] \<and>
   (\<exists>ys. filter_data scenario (Some ''GUY'') (Some ''2001'') (Some ''SEX_BTSX'') = Inr (JArr ys) \<and>
         guy \<in> set ys \<and> usa \<notin> set ys)"
proof -
  have h1: "py_getitem scenario ''value'' = Inr (JArr [guy, usa])"
    by (simp add: scenario_def)
  have h2: "list_all is_record [guy, usa]"
    by (simp add: guy_def usa_def)
  have h3: "Some ''GUY'' \<noteq> Some []" "Some ''2001'' \<noteq> Some []" "Some ''SEX_BTSX'' \<noteq> Some []"
    by simp_all
  from filter_conjunction [OF h1 h2 h3] obtain ys where
    r: "filter_data scenario (Some ''GUY'') (Some ''2001'') (Some ''SEX_BTSX'') = Inr (JArr ys)"
    and m: "\<And>e. e \<in> set ys \<longleftrightarrow> e \<in> set [guy, usa] \<and> satisfies e ''SpatialDim'' (Some ''GUY'') \<and>
                satisfies e ''TimeDimensionValue'' (Some ''2001'') \<and>
                satisfies e ''Dim1'' (Some ''SEX_BTSX'')"
    by blast
  have "guy \<in> set ys"
    unfolding m by (simp add: satisfies_def has_value_def py_get_def guy_def)
  moreover have "usa \<notin> set ys"
    unfolding m by (simp add: satisfies_def has_value_def py_get_def usa_def)
  ultimately show ?thesis using h1 h2 r by blast
qed

text \<open>
  C1 as stated fails for the empty string: \<^verbatim>\<open>filter_data(spatial_dim="")\<close> skips the step,
  so the record of Guyana is returned although its \<^verbatim>\<open>SpatialDim\<close> is not the empty string.
\<close>

theorem empty_string_predicate_counterexample:
  "filter_data (JObj [(''value'', JArr [JObj [(''SpatialDim'', JStr ''GUY'')]])]) (Some '''') None None
     = Inr (JArr [JObj [(''SpatialDim'', JStr ''GUY'')]]) \<and>
   \<not> satisfies (JObj [(''SpatialDim'', JStr ''GUY'')]) ''SpatialDim'' (Some '''')"
  by (simp add: filter_data_def narrow_def satisfies_def has_value_def py_get_def)

subsection \<open>No predicate\<close>

text \<open>
  C2. On every loaded document with the \<^verbatim>\<open>'value'\<close> key, \<^verbatim>\<open>filter_data\<close> with the three
  arguments left out, or with \<^verbatim>\<open>None\<close> passed for them, returns the value under
  \<^verbatim>\<open>'value'\<close> itself: the whole record sequence, in its order, unchanged. For each
  argument, leaving it out, passing \<^verbatim>\<open>None\<close> and passing the empty string give the same
  call.
\<close>

theorem no_predicate_identity:
  assumes "py_getitem data ''value'' = Inr v"
  shows "call_filter_data data Omitted Omitted Omitted = Inr v \<and>
         call_filter_data data (Passed None) (Passed None) (Passed None) = Inr v \<and>
         call_filter_data data (Passed None) b c = call_filter_data data Omitted b c \<and>
         call_filter_data data a (Passed None) c = call_filter_data data a Omitted c \<and>
         call_filter_data data a b (Passed None) = call_filter_data data a b Omitted \<and>
         call_filter_data data (Passed (Some [])) b c = call_filter_data data Omitted b c \<and>
         call_filter_data data a (Passed (Some [])) c = call_filter_data data a Omitted c \<and>
         call_filter_data data a b (Passed (Some [])) = call_filter_data data a b Omitted"
  using assms
  by (simp add: call_filter_data_def arg_or_def filter_data_chain narrow_def filter_data_falsy_eq)

theorem no_predicate_identity_witness:
  "py_getitem scenario ''value'' = Inr (JArr [guy, usa]) \<and>
   call_filter_data scenario Omitted Omitted Omitted = Inr (JArr [guy, usa]) \<and>
   call_filter_data scenario (Passed None) (Passed None) (Passed None) = Inr (JArr [guy, usa])"
proof -
  have h: "py_getitem scenario ''value'' = Inr (JArr [guy, usa])"
    by (simp add: scenario_def)
  show ?thesis using h no_predicate_identity [OF h] by simp
qed

subsection \<open>When \<^verbatim>\<open>ValueError\<close> is raised\<close>

text \<open>
  C6, for a document of the declared type. When nothing is loaded (\<^verbatim>\<open>None\<close>),
  \<^verbatim>\<open>filter_data\<close> raises its \<^verbatim>\<open>ValueError\<close>. When the loaded document is a dict, it raises
  the \<^verbatim>\<open>ValueError\<close> exactly when the dict has no \<^verbatim>\<open>'value'\<close> key; with the key present
  the error branch is not reached. A loaded document that is not a dict always fails,
  with the \<^verbatim>\<open>ValueError\<close> or with a \<^verbatim>\<open>TypeError\<close>.
\<close>

theorem state_failure_condition:
  "filter_data JNull s t p = Inl ValueError \<and>
   (filter_data (JObj kvs) s t p = Inl ValueError \<longleftrightarrow> map_of kvs ''value'' = None) \<and>
   (map_of kvs ''value'' \<noteq> None \<longrightarrow> filter_data (JObj kvs) s t p \<noteq> Inl ValueError) \<and>
   (\<not> is_record data \<longrightarrow>
      filter_data data s t p = Inl ValueError \<or> filter_data data s t p = Inl TypeError)"
proof -
  have dict: "filter_data (JObj kvs) s t p = Inl ValueError \<longleftrightarrow> map_of kvs ''value'' = None"
  proof (cases "map_of kvs ''value''")
    case None
    then show ?thesis by (simp add: filter_data_def)
  next
    case (Some v)
    then have "py_getitem (JObj kvs) ''value'' = Inr v" by simp
    then show ?thesis
      using Some by (simp add: filter_data_chain narrow_chain_not_ValueError)
  qed
  have other: "filter_data data s t p = Inl ValueError \<or> filter_data data s t p = Inl TypeError"
    if "\<not> is_record data"
    using that by (cases data) (auto simp: filter_data_def)
  have "filter_data JNull s t p = Inl ValueError"
    by (simp add: filter_data_def)
  with dict other show ?thesis by auto
qed

theorem state_failure_condition_witness:
  "map_of [(''count'', JNum 2)] ''value'' = None \<and>
   filter_data (JObj [(''count'', JNum 2)]) (Some ''GUY'') None None = Inl ValueError \<and>
   filter_data (JObj []) None None None = Inl ValueError \<and>
   filter_data JNull None None None = Inl ValueError \<and>
   map_of [(''value'', JArr [guy, usa])] ''value'' \<noteq> None \<and>
   filter_data scenario (Some ''GUY'') None None \<noteq> Inl ValueError \<and>
   \<not> is_record (JArr [guy]) \<and>
   filter_data (JArr [guy]) None None None = Inl ValueError"
proof -
  have a: "filter_data (JArr [guy]) None None None \<noteq> Inl TypeError"
    by (simp add: filter_data_def guy_def)
  show ?thesis
    using state_failure_condition [of "Some ''GUY''" None None "[(''count'', JNum 2)]" JNull]
      state_failure_condition [of None None None "[]" "JArr [guy]"]
      state_failure_condition [of "Some ''GUY''" None None "[(''value'', JArr [guy, usa])]" JNull]
      a
    by (simp add: scenario_def)
qed

text \<open>
  C6 as stated fails for loaded documents that are not dicts: the number 5 and the list
  \<^verbatim>\<open>["value"]\<close> have no \<^verbatim>\<open>'value'\<close> key, and \<^verbatim>\<open>filter_data\<close> raises \<^verbatim>\<open>TypeError\<close>, at the
  test \<^verbatim>\<open>in\<close> for the number and at the subscript for the list.
\<close>

theorem not_a_dict_counterexample:
  "filter_data (JNum 5) None None None = Inl TypeError \<and>
   filter_data (JArr [JStr ''value'']) None None None = Inl TypeError \<and>
   py_getitem (JNum 5) ''value'' = Inl TypeError \<and>
   py_getitem (JArr [JStr ''value'']) ''value'' = Inl TypeError"
  by (simp add: filter_data_def)

subsection \<open>Missing attributes and empty results\<close>




subsection \<open>Order and size of the result\<close>

lemma comprehension_subseq: "comprehension a v es = Inr ys \<Longrightarrow> subseq ys es"
proof (induction es arbitrary: ys)
  case Nil then show ?case by simp
next
  case (Cons e es)
  then show ?case
    by (auto split: sum.splits if_splits)
qed

text \<open>
  C8. On a loaded record sequence the result of \<^verbatim>\<open>filter_data\<close> is a subsequence of it: the
  records that remain keep their relative order, and their number is between 0 and the
  total count. \<^verbatim>\<open>get_filtered_data\<close> returns the same list and reports the two counts.
\<close>

theorem subsequence_order:
  assumes "py_getitem data ''value'' = Inr (JArr es)" and "list_all is_record es"
  shows "\<exists>ys. filter_data data s t p = Inr (JArr ys) \<and> subseq ys es \<and>
           0 \<le> length ys \<and> length ys \<le> length es \<and>
           get_filtered_data data s t p = Inr (JArr ys, length ys, length es)"
proof -
  let ?ys = "filter (\<lambda>e. passes ''SpatialDim'' s e \<and>
            passes ''TimeDimensionValue'' t e \<and> passes ''Dim1'' p e) es"
  have r: "filter_data data s t p = Inr (JArr ?ys)"
    using assms by (rule filter_data_records)
  obtain kvs where d: "data = JObj kvs" and v: "map_of kvs ''value'' = Some (JArr es)"
    using assms(1) by (cases data) (auto split: option.splits)
  have "get_filtered_data data s t p = Inr (JArr ?ys, length ?ys, length es)"
    using r unfolding d by (simp add: get_filtered_data_def v)
  with r show ?thesis by auto
qed

theorem subsequence_order_witness:
  "py_getitem scenario ''value'' = Inr (JArr [guy, usa]) \<and> list_all is_record [guy, usa] \<and>
   (\<exists>ys. filter_data scenario None (Some ''2001'') None = Inr (JArr ys) \<and> subseq ys [guy, usa] \<and>
         length ys \<le> 2)"
proof -
  have h1: "py_getitem scenario ''value'' = Inr (JArr [guy, usa])"
    by (simp add: scenario_def)
  have h2: "list_all is_record [guy, usa]"
    by (simp add: guy_def usa_def)
  from subsequence_order [OF h1 h2, of None "Some ''2001''" None] h1 h2 show ?thesis
    by auto
qed

subsection \<open>The empty string as an argument\<close>




section \<open>Properties of the constructor\<close>

lemma Path_samples:
  "Path ''Data'' = [''Data'']"
  "Path ''WHOSIS_000001.json'' = [''WHOSIS_000001.json'']"
  "Path ''sub/x.json'' = [''sub'', ''x.json'']"
  by (simp_all add: Path_def)

lemma filepath_default:
  "filepath (init_members ''Data'' ''WHOSIS_000001.json'') = [''Data'', ''WHOSIS_000001.json'']"
  "data_dir (init_members ''Data'' ''WHOSIS_000001.json'') = [''Data'']"
  "url (init_members dir name) = who_url"
  by (simp_all add: init_members_def Path_samples joinpath_def who_url_def)

lemma no_null_samples:
  "\<not> embedded_null [''Data'', ''WHOSIS_000001.json'']"
  "\<not> embedded_null [''Data'']"
  "\<not> embedded_null [''Data'', ''sub'', ''x.json'']"
  by (simp_all add: embedded_null_def)

subsection \<open>A cache file that exists\<close>

lemma construct_cached:
  assumes "exists_path (fs w) (cwd w) (filepath (init_members dir name))"
  shows "WHODataManager dir name e w =
    (case load_file e (fs w) (cwd w) (filepath (init_members dir name)) of
       Inl x \<Rightarrow> (Inl x, w)
     | Inr j \<Rightarrow> (Inr (config.extend (init_members dir name) (manager.fields j)), w))"
  using assms
  by (auto simp: WHODataManager_def initialize_data_def Let_def split: sum.splits)

text \<open>
  C3. Whenever the cache file exists, the constructor loads and parses it and sends no
  request: the world, with its list of requests, is as before, whatever the server
  would answer. If the file does not parse, the constructor fails with the decoding
  error, and still nothing is sent.
\<close>

theorem cache_hit_no_fetch:
  assumes "locate (fs w) (cwd w) (filepath (init_members dir name)) = Inr q"
    and "node_at (fs w) q = Some (File b)"
  shows "WHODataManager dir name e w =
    ((case json_load e b of
        None \<Rightarrow> Inl JSONDecodeError
      | Some j \<Rightarrow> Inr (config.extend (init_members dir name) (manager.fields j))), w) \<and>
    sent (snd (WHODataManager dir name e w)) = sent w \<and>
    (json_load e b = None \<longrightarrow> fst (WHODataManager dir name e w) = Inl JSONDecodeError)"
proof -
  have "exists_path (fs w) (cwd w) (filepath (init_members dir name))"
    using assms by (simp add: exists_path_def)
  from construct_cached[OF this] assms show ?thesis
    by (simp add: load_file_def split: option.splits)
qed

theorem cache_hit_no_fetch_witness:
  "locate (fs malformed_cache) (cwd malformed_cache)
     (filepath (init_members ''Data'' ''WHOSIS_000001.json''))
     = Inr [''work'', ''Data'', ''WHOSIS_000001.json''] \<and>
   node_at (fs malformed_cache) [''work'', ''Data'', ''WHOSIS_000001.json''] = Some (File ''{'') \<and>
   json_load reachable ''{'' = None \<and>
   http_get reachable who_url = Returns (Response 200 ''{}'') \<and>
   WHODataManager ''Data'' ''WHOSIS_000001.json'' reachable malformed_cache
     = (Inl JSONDecodeError, malformed_cache) \<and>
   sent (snd (WHODataManager ''Data'' ''WHOSIS_000001.json'' reachable malformed_cache)) = []"
proof -
  have h1: "locate (fs malformed_cache) (cwd malformed_cache)
     (filepath (init_members ''Data'' ''WHOSIS_000001.json''))
     = Inr [''work'', ''Data'', ''WHOSIS_000001.json'']"
    by (simp add: filepath_default locate_def no_null_samples malformed_cache_def node_at_def)
  have h2: "node_at (fs malformed_cache) [''work'', ''Data'', ''WHOSIS_000001.json''] = Some (File ''{'')"
    by (simp add: malformed_cache_def node_at_def)
  have l: "json_load reachable ''{'' = None"
    by (simp add: reachable_def sample_load_def)
  have s: "sent malformed_cache = []"
    by (simp add: malformed_cache_def)
  show ?thesis
    using cache_hit_no_fetch [OF h1 h2, of reachable] h1 h2 l s
    by (simp add: reachable_def)
qed

subsection \<open>A download that fails\<close>

lemma raise_for_status_rejects:
  "raise_for_status r = Inl x \<longleftrightarrow>
     400 \<le> status_code r \<and> status_code r < 600 \<and> x = HTTPError (status_code r)"
  by (auto simp: raise_for_status_def)

text \<open>
  C4, for the error statuses. When there is no cache file and the one GET returns a
  response with an error status, 4xx or 5xx (the statuses \<^verbatim>\<open>raise_for_status\<close> rejects,
  such as 500), the constructor fails with the download exception that wraps the HTTP
  error, exactly one request has been sent, and the file system is unchanged: no
  directory and no cache file has been created.
\<close>

theorem fetch_failure_atomic:
  assumes "\<not> exists_path (fs w) (cwd w) (filepath (init_members dir name))"
    and "http_get e who_url = Returns r"
    and "400 \<le> status_code r" and "status_code r < 600"
  shows "WHODataManager dir name e w =
           (Inl (Failed_to_download (HTTPError (status_code r))),
            w\<lparr>sent := sent w @ [who_url]\<rparr>) \<and>
         fs (snd (WHODataManager dir name e w)) = fs w \<and>
         sent (snd (WHODataManager dir name e w)) = sent w @ [who_url]"
proof -
  have "raise_for_status r = Inl (HTTPError (status_code r))"
    using assms(3,4) by (simp add: raise_for_status_rejects)
  with assms(1,2) have "WHODataManager dir name e w =
           (Inl (Failed_to_download (HTTPError (status_code r))),
            w\<lparr>sent := sent w @ [who_url]\<rparr>)"
    by (simp add: WHODataManager_def initialize_data_def filepath_default
        download_data_def Let_def)
  then show ?thesis by simp
qed

lemma no_cache_file:
  "\<not> exists_path (fs no_cache) (cwd no_cache) (filepath (init_members ''Data'' ''WHOSIS_000001.json''))"
  by (simp add: filepath_default exists_path_def locate_def no_null_samples no_cache_def node_at_def)

theorem fetch_failure_atomic_witness:
  "\<not> exists_path (fs no_cache) (cwd no_cache) (filepath (init_members ''Data'' ''WHOSIS_000001.json'')) \<and>
   http_get server_error who_url = Returns (Response 500 ''Internal Server Error'') \<and>
   (400::nat) \<le> 500 \<and> (500::nat) < 600 \<and>
   WHODataManager ''Data'' ''WHOSIS_000001.json'' server_error no_cache
     = (Inl (Failed_to_download (HTTPError 500)), no_cache\<lparr>sent := [who_url]\<rparr>)"
proof -
  have h2: "http_get server_error who_url = Returns (Response 500 ''Internal Server Error'')"
    by (simp add: server_error_def)
  have h3: "400 \<le> status_code (Response 500 ''Internal Server Error'')"
    "status_code (Response 500 ''Internal Server Error'') < 600"
    by simp_all
  have s: "sent no_cache = []"
    by (simp add: no_cache_def)
  show ?thesis
    using fetch_failure_atomic [OF no_cache_file h2 h3] no_cache_file h2 s
    by simp
qed

text \<open>
  C4 as stated fails for a status that is neither a success nor an error: a response with
  status 300 passes \<^verbatim>\<open>raise_for_status\<close>, so the constructor returns a manager and the
  cache file has been created with the body of that response.
\<close>

theorem redirection_status_counterexample:
  "http_get multiple_choices who_url = Returns (Response 300 ''[]'') \<and>
   \<not> exists_path (fs no_cache) (cwd no_cache) (filepath (init_members ''Data'' ''WHOSIS_000001.json'')) \<and>
   fst (WHODataManager ''Data'' ''WHOSIS_000001.json'' multiple_choices no_cache)
     = Inr (config.extend (init_members ''Data'' ''WHOSIS_000001.json'') (manager.fields (JArr []))) \<and>
   fs (snd (WHODataManager ''Data'' ''WHOSIS_000001.json'' multiple_choices no_cache))
     [''work'', ''Data'', ''WHOSIS_000001.json''] = Some (File ''[]'')"
  using no_cache_file
  by (simp add: WHODataManager_def initialize_data_def filepath_default
      download_data_def raise_for_status_def ensure_data_directory_def os_mkdir_def
      locate_def no_null_samples open_wb_def write_file_def load_file_def node_at_def
      multiple_choices_def sample_load_def no_cache_def who_url_def Let_def)

subsection \<open>A write that fails\<close>

lemma walk_step:
  "node_at f cur = Some Dir \<Longrightarrow>
   walk f cur (c # cs) = walk f (if c = ''..'' then butlast cur else cur @ [c]) cs"
  by simp

lemma walk_stepD:
  assumes "walk f cur (c # cs) = Inr q"
  shows "node_at f cur = Some Dir"
    and "walk f (if c = ''..'' then butlast cur else cur @ [c]) cs = Inr q"
  using assms by (auto split: option.splits node.splits)

lemma walk_upd:
  "walk f cur cs = Inr q \<Longrightarrow> node_at f q \<noteq> Some Dir \<Longrightarrow> walk (f(q \<mapsto> n)) cur cs = Inr q"
proof (induction cs arbitrary: cur)
  case Nil
  then show ?case by simp
next
  case (Cons c cs)
  note d = walk_stepD[OF Cons.prems(1)]
  from d(1) Cons.prems(2) have "cur \<noteq> q" by auto
  then have nd: "node_at (f(q \<mapsto> n)) cur = Some Dir"
    using d(1) by (auto simp: node_at_def split: if_splits)
  have "walk (f(q \<mapsto> n)) (if c = ''..'' then butlast cur else cur @ [c]) cs = Inr q"
    using d(2) Cons.prems(2) by (rule Cons.IH)
  then show ?case
    by (simp only: walk_step[OF nd])
qed

lemma locate_upd:
  assumes "locate f d p = Inr q" and "node_at f q \<noteq> Some Dir"
  shows "locate (f(q \<mapsto> n)) d p = Inr q"
proof -
  have e: "\<not> embedded_null p"
    using assms(1) by (auto simp: locate_def split: if_splits)
  show ?thesis
  proof (cases p)
    case Nil
    with assms e show ?thesis by (simp add: locate_def)
  next
    case (Cons c cs)
    show ?thesis
    proof (cases "c = ''/''")
      case True
      with Cons assms(1) e have "walk f [] cs = Inr q" by (simp add: locate_def)
      from walk_upd[OF this assms(2)] Cons True e show ?thesis by (simp add: locate_def)
    next
      case False
      with Cons assms(1) e have "walk f d (c # cs) = Inr q" by (simp add: locate_def)
      from walk_upd[OF this assms(2)] Cons False e show ?thesis by (simp add: locate_def)
    qed
  qed
qed

lemma open_wb_located:
  assumes "open_wb f d p = Inr (f2, q)"
  shows "locate f d p = Inr q \<and> node_at f q \<noteq> Some Dir \<and> q \<noteq> [] \<and> f2 = f(q \<mapsto> File [])"
  using assms
  by (auto simp: open_wb_def node_at_def split: sum.splits option.splits node.splits if_splits)

text \<open>
  C5, amended. \<^verbatim>\<open>download_data\<close> writes into the cache file itself. When there is no cache
  file, the response passes the status check, the directory has been made and the file
  has been opened for writing, then: if the write fails after \<open>k\<close> bytes, the
  constructor fails with the download exception that wraps the \<^verbatim>\<open>OSError\<close> and the cache
  file is left behind with the first \<open>k\<close> bytes of the response body, which is not the
  complete body when \<open>k\<close> is less than its length; if the write completes, the cache file
  holds the complete body and is what the constructor loads.
\<close>

theorem write_failure_leaves_prefix:
  assumes "\<not> exists_path (fs w) (cwd w) (filepath (init_members dir name))"
    and "http_get e who_url = Returns r"
    and "raise_for_status r = Inr ()"
    and "ensure_data_directory (init_members dir name) (fs w) (cwd w) = (None, f1)"
    and "open_wb f1 (cwd w) (filepath (init_members dir name)) = Inr (f2, q)"
  shows "(write_cut e = Some k \<longrightarrow>
           WHODataManager dir name e w =
             (Inl (Failed_to_download OSError),
              w\<lparr>fs := f1(q \<mapsto> File (take k (content r))), sent := sent w @ [who_url]\<rparr>) \<and>
           fs (snd (WHODataManager dir name e w)) q = Some (File (take k (content r))) \<and>
           (k < length (content r) \<longrightarrow> take k (content r) \<noteq> content r)) \<and>
         (write_cut e = None \<longrightarrow>
           WHODataManager dir name e w =
             ((case json_load e (content r) of
                 None \<Rightarrow> Inl JSONDecodeError
               | Some j \<Rightarrow> Inr (config.extend (init_members dir name) (manager.fields j))),
              w\<lparr>fs := f1(q \<mapsto> File (content r)), sent := sent w @ [who_url]\<rparr>) \<and>
           fs (snd (WHODataManager dir name e w)) q = Some (File (content r)))"
proof -
  let ?self = "init_members dir name"
  note o = open_wb_located[OF assms(5)]
  have u: "url ?self = who_url" by (rule filepath_default)
  have cut: "WHODataManager dir name e w =
             (Inl (Failed_to_download OSError),
              w\<lparr>fs := f1(q \<mapsto> File (take k (content r))), sent := sent w @ [who_url]\<rparr>)"
    if "write_cut e = Some k"
    using that assms o u
    by (simp add: WHODataManager_def initialize_data_def download_data_def Let_def write_file_def)
  have l: "locate (f1(q \<mapsto> File (content r))) (cwd w) (filepath ?self) = Inr q"
    using o by (simp add: locate_upd)
  have n: "node_at (f1(q \<mapsto> File (content r))) q = Some (File (content r))"
    using o by (simp add: node_at_def)
  have whole: "WHODataManager dir name e w =
             ((case json_load e (content r) of
                 None \<Rightarrow> Inl JSONDecodeError
               | Some j \<Rightarrow> Inr (config.extend ?self (manager.fields j))),
              w\<lparr>fs := f1(q \<mapsto> File (content r)), sent := sent w @ [who_url]\<rparr>)"
    if "write_cut e = None"
    using that assms o u l n
    by (auto simp add: WHODataManager_def initialize_data_def download_data_def Let_def
        write_file_def load_file_def split: option.splits)
  have "take k (content r) \<noteq> content r" if "k < length (content r)"
  proof
    assume "take k (content r) = content r"
    then have "length (take k (content r)) = length (content r)" by simp
    with that show False by simp
  qed
  with cut whole show ?thesis by auto
qed

lemma default_directory_made:
  "ensure_data_directory (init_members ''Data'' ''WHOSIS_000001.json'') (fs no_cache) (cwd no_cache)
     = (None, [[''work''] \<mapsto> Dir, [''work'', ''Data''] \<mapsto> Dir])"
  by (simp add: ensure_data_directory_def filepath_default os_mkdir_def locate_def no_null_samples no_cache_def
      node_at_def)

lemma default_file_opened:
  "open_wb [[''work''] \<mapsto> Dir, [''work'', ''Data''] \<mapsto> Dir] (cwd no_cache)
     (filepath (init_members ''Data'' ''WHOSIS_000001.json''))
   = Inr ([[''work''] \<mapsto> Dir, [''work'', ''Data''] \<mapsto> Dir,
           [''work'', ''Data'', ''WHOSIS_000001.json''] \<mapsto> File []],
          [''work'', ''Data'', ''WHOSIS_000001.json''])"
  by (simp add: open_wb_def filepath_default locate_def no_null_samples no_cache_def node_at_def)

theorem write_failure_leaves_prefix_witness:
  "\<not> exists_path (fs no_cache) (cwd no_cache) (filepath (init_members ''Data'' ''WHOSIS_000001.json'')) \<and>
   http_get disk_full who_url = Returns (Response 200 ''{}'') \<and>
   raise_for_status (Response 200 ''{}'') = Inr () \<and>
   write_cut disk_full = Some 1 \<and>
   WHODataManager ''Data'' ''WHOSIS_000001.json'' disk_full no_cache =
     (Inl (Failed_to_download OSError),
      no_cache\<lparr>fs := [[''work''] \<mapsto> Dir, [''work'', ''Data''] \<mapsto> Dir,
                       [''work'', ''Data'', ''WHOSIS_000001.json''] \<mapsto> File ''{''],
         sent := [who_url]\<rparr>) \<and>
   fs (snd (WHODataManager ''Data'' ''WHOSIS_000001.json'' disk_full no_cache))
     [''work'', ''Data'', ''WHOSIS_000001.json''] = Some (File ''{'') \<and>
   ''{'' \<noteq> ''{}''"
proof -
  have h2: "http_get disk_full who_url = Returns (Response 200 ''{}'')"
    by (simp add: disk_full_def)
  have h3: "raise_for_status (Response 200 ''{}'') = Inr ()"
    by (simp add: raise_for_status_def)
  have h5: "write_cut disk_full = Some 1"
    by (simp add: disk_full_def)
  have s: "sent no_cache = []"
    by (simp add: no_cache_def)
  from write_failure_leaves_prefix
    [OF no_cache_file h2 h3 default_directory_made default_file_opened, of 1] h5 s
  have "WHODataManager ''Data'' ''WHOSIS_000001.json'' disk_full no_cache =
     (Inl (Failed_to_download OSError),
      no_cache\<lparr>fs := [[''work''] \<mapsto> Dir, [''work'', ''Data''] \<mapsto> Dir,
                       [''work'', ''Data'', ''WHOSIS_000001.json''] \<mapsto> File ''{''],
         sent := [who_url]\<rparr>)"
    by simp
  then show ?thesis
    using no_cache_file h2 h3 h5 by simp
qed

text \<open>
  C5 as stated fails: with a disk that gives out after one byte, the constructor raises and
  the cache file exists with the single byte \<^verbatim>\<open>{\<close> of the body \<^verbatim>\<open>{}\<close>; it neither holds
  the complete body nor is it absent.
\<close>

theorem partial_write_counterexample:
  "fst (WHODataManager ''Data'' ''WHOSIS_000001.json'' disk_full no_cache)
     = Inl (Failed_to_download OSError) \<and>
   fs (snd (WHODataManager ''Data'' ''WHOSIS_000001.json'' disk_full no_cache))
     [''work'', ''Data'', ''WHOSIS_000001.json''] = Some (File ''{'') \<and>
   http_get disk_full who_url = Returns (Response 200 ''{}'')"
  using no_cache_file
  by (simp add: WHODataManager_def initialize_data_def filepath_default
      download_data_def raise_for_status_def ensure_data_directory_def os_mkdir_def
      locate_def no_null_samples open_wb_def write_file_def node_at_def
      disk_full_def no_cache_def who_url_def Let_def)

text \<open>
  A file name with a separator names a file in a subdirectory that nobody makes: the
  \<^verbatim>\<open>open\<close> fails, and no file is left.
\<close>

lemma separator_in_filename:
  "fst (WHODataManager ''Data'' ''sub/x.json'' reachable no_cache)
     = Inl (Failed_to_download FileNotFoundError) \<and>
   fs (snd (WHODataManager ''Data'' ''sub/x.json'' reachable no_cache))
     = [[''work''] \<mapsto> Dir, [''work'', ''Data''] \<mapsto> Dir]"
  by (simp add: WHODataManager_def initialize_data_def init_members_def Path_samples joinpath_def
      download_data_def raise_for_status_def ensure_data_directory_def os_mkdir_def
      exists_path_def locate_def no_null_samples open_wb_def node_at_def
      reachable_def no_cache_def Let_def)

section \<open>Properties over the store\<close>

subsection \<open>Calls only allocate\<close>

lemma h_then_simps [simp]:
  "h_then (Inl x, h) f = (Inl x, h)"
  "h_then (Inr v, h) f = f v h"
  by (simp_all add: h_then_def)

lemma h_then_frame:
  assumes "prefix h (snd m)" and "\<And>v h1. prefix h h1 \<Longrightarrow> prefix h (snd (f v h1))"
  shows "prefix h (snd (h_then m f))"
proof (cases m)
  case (Pair r h1)
  with assms show ?thesis by (cases r) auto
qed

lemma h_narrow_frame: "prefix h h1 \<Longrightarrow> prefix h (snd (h_narrow attr p v h1))"
  by (auto simp: h_narrow_def alloc_def split: option.splits sum.splits
      intro: prefix_order.trans)

lemma if_frame:
  "(c \<Longrightarrow> prefix h (snd a)) \<Longrightarrow> (\<not> c \<Longrightarrow> prefix h (snd b)) \<Longrightarrow>
   prefix h (snd (if c then a else b))"
  by simp

lemma h_filter_data_frame: "prefix h (snd (h_filter_data self s t p h))"
  unfolding h_filter_data_def
  by (intro h_then_frame h_narrow_frame if_frame) simp_all

lemma h_get_filtered_data_frame: "prefix h (snd (h_get_filtered_data self s t p h))"
  unfolding h_get_filtered_data_def
  by (intro h_then_frame h_filter_data_frame)
     (auto simp: alloc_def intro: prefix_order.trans)

lemma queries_frame: "prefix h (queries self qs h)"
proof (induction qs arbitrary: h)
  case Nil
  then show ?case by simp
next
  case (Cons q qs)
  obtain s t p where q: "q = (s, t, p)" by (cases q) auto
  have "prefix h (snd (h_get_filtered_data self s t p h))"
    by (rule h_get_filtered_data_frame)
  also have "prefix \<dots> (queries self qs (snd (h_get_filtered_data self s t p h)))"
    by (rule Cons.IH)
  finally show ?case by (simp add: q)
qed

subsection \<open>The store model computes what the value model computes\<close>

lemma lookup_prefix: "prefix h h' \<Longrightarrow> lookup h a = Some obj \<Longrightarrow> lookup h' a = Some obj"
  by (auto simp: lookup_def prefix_def nth_append split: if_splits)

lemma represents_prefix: "represents h v j \<Longrightarrow> prefix h h' \<Longrightarrow> represents h' v j"
proof (induction j arbitrary: v)
  case (JArr js)
  from JArr.prems(1) obtain a vs where v: "v = VRef a" and l: "lookup h a = Some (OList vs)"
    and all: "list_all2 (\<lambda>x j. represents h x j) vs js"
    by (auto split: pyval.splits option.splits pyobj.splits)
  have "list_all2 (\<lambda>x j. represents h' x j) vs js"
    using all JArr.IH JArr.prems(2) by (auto elim!: list.rel_mono_strong)
  with v lookup_prefix[OF JArr.prems(2) l] show ?case by simp
next
  case (JObj kjs)
  from JObj.prems(1) obtain a kvs where v: "v = VRef a" and l: "lookup h a = Some (ODict kvs)"
    and all: "list_all2 (\<lambda>kv kj. fst kv = fst kj \<and> represents h (snd kv) (snd kj)) kvs kjs"
    by (auto split: pyval.splits option.splits pyobj.splits)
  have "list_all2 (\<lambda>kv kj. fst kv = fst kj \<and> represents h' (snd kv) (snd kj)) kvs kjs"
    using all
  proof (rule list.rel_mono_strong)
    fix kv kj
    assume "kv \<in> set kvs" "kj \<in> set kjs"
      and r: "fst kv = fst kj \<and> represents h (snd kv) (snd kj)"
    then have "snd kj \<in> Basic_BNFs.snds kj"
      by (cases kj) simp
    from JObj.IH[OF \<open>kj \<in> set kjs\<close> this] r JObj.prems(2)
    show "fst kv = fst kj \<and> represents h' (snd kv) (snd kj)" by simp
  qed
  with v lookup_prefix[OF JObj.prems(2) l] show ?case by simp
qed auto

lemma represents_VStr: "represents h (VStr s) j \<longleftrightarrow> j = JStr s"
  by (cases j) auto

lemma represents_listE:
  assumes "represents h v (JArr js)"
  obtains a vs where "v = VRef a" "lookup h a = Some (OList vs)" "list_all2 (represents h) vs js"
  using assms by (auto split: pyval.splits option.splits pyobj.splits)

lemma represents_dictE:
  assumes "represents h v (JObj kjs)"
  obtains a kvs where "v = VRef a" "lookup h a = Some (ODict kvs)"
    "list_all2 (\<lambda>kv kj. fst kv = fst kj \<and> represents h (snd kv) (snd kj)) kvs kjs"
  using assms by (auto split: pyval.splits option.splits pyobj.splits)

lemma map_of_sim:
  "list_all2 (\<lambda>kv kj. fst kv = fst kj \<and> R (snd kv) (snd kj)) kvs kjs \<Longrightarrow>
   rel_option R (map_of kvs k) (map_of kjs k)"
  by (induction kvs kjs rule: list_all2_induct) auto

lemma member_sim:
  "list_all2 (represents h) vs js \<Longrightarrow> VStr k \<in> set vs \<longleftrightarrow> JStr k \<in> set js"
  by (induction vs js rule: list_all2_induct) (auto simp: represents_VStr)

lemma truthy_sim:
  assumes "represents h v j"
  shows "h_truthy h v = Inr (truthy j)"
proof (cases j)
  case (JArr js)
  with assms obtain a vs where "v = VRef a" "lookup h a = Some (OList vs)"
    "list_all2 (represents h) vs js"
    by (blast elim: represents_listE)
  with JArr show ?thesis by (auto dest: list_all2_lengthD)
next
  case (JObj kjs)
  with assms obtain a kvs where "v = VRef a" "lookup h a = Some (ODict kvs)"
    "list_all2 (\<lambda>kv kj. fst kv = fst kj \<and> represents h (snd kv) (snd kj)) kvs kjs"
    by (blast elim: represents_dictE)
  with JObj show ?thesis by (auto dest: list_all2_lengthD)
qed (use assms in auto)

lemma in_sim:
  assumes "represents h v j"
  shows "h_in k h v = py_in k j"
proof (cases j)
  case (JArr js)
  with assms obtain a vs where "v = VRef a" "lookup h a = Some (OList vs)"
    "list_all2 (represents h) vs js"
    by (blast elim: represents_listE)
  with JArr show ?thesis by (simp add: member_sim)
next
  case (JObj kjs)
  with assms obtain a kvs where v: "v = VRef a" "lookup h a = Some (ODict kvs)"
    and "list_all2 (\<lambda>kv kj. fst kv = fst kj \<and> represents h (snd kv) (snd kj)) kvs kjs"
    by (blast elim: represents_dictE)
  then have "rel_option (represents h) (map_of kvs k) (map_of kjs k)"
    by (intro map_of_sim)
  with JObj v show ?thesis by (auto elim: option.rel_cases)
qed (use assms in auto)

lemma getitem_sim:
  assumes "represents h v j"
  shows "rel_sum (=) (represents h) (h_getitem h v k) (py_getitem j k)"
proof (cases j)
  case (JArr js)
  with assms obtain a vs where "v = VRef a" "lookup h a = Some (OList vs)"
    by (blast elim: represents_listE)
  with JArr show ?thesis by simp
next
  case (JObj kjs)
  with assms obtain a kvs where v: "v = VRef a" "lookup h a = Some (ODict kvs)"
    and "list_all2 (\<lambda>kv kj. fst kv = fst kj \<and> represents h (snd kv) (snd kj)) kvs kjs"
    by (blast elim: represents_dictE)
  then have "rel_option (represents h) (map_of kvs k) (map_of kjs k)"
    by (intro map_of_sim)
  with JObj v show ?thesis by (auto elim: option.rel_cases)
qed (use assms in auto)

lemma get_default_sim:
  assumes "represents h v j" and "represents h d dj"
  shows "rel_sum (=) (represents h) (h_get_default h v k d) (py_get_default j k dj)"
proof (cases j)
  case (JArr js)
  with assms obtain a vs where "v = VRef a" "lookup h a = Some (OList vs)"
    by (blast elim: represents_listE)
  with JArr show ?thesis by simp
next
  case (JObj kjs)
  with assms obtain a kvs where v: "v = VRef a" "lookup h a = Some (ODict kvs)"
    and "list_all2 (\<lambda>kv kj. fst kv = fst kj \<and> represents h (snd kv) (snd kj)) kvs kjs"
    by (blast elim: represents_dictE)
  then have "rel_option (represents h) (map_of kvs k) (map_of kjs k)"
    by (intro map_of_sim)
  with JObj v assms(2) show ?thesis by (auto elim: option.rel_cases)
qed (use assms in auto)

lemma iter_sim:
  assumes "represents h v j"
  shows "rel_sum (=) (list_all2 (represents h)) (h_iter h v) (py_iter j)"
proof (cases j)
  case (JStr s)
  with assms show ?thesis by (auto simp: list_all2_map1 list_all2_map2 list_all2_same)
next
  case (JArr js)
  with assms obtain a vs where "v = VRef a" "lookup h a = Some (OList vs)"
    "list_all2 (represents h) vs js"
    by (blast elim: represents_listE)
  with JArr show ?thesis by simp
next
  case (JObj kjs)
  with assms obtain a kvs where v: "v = VRef a" "lookup h a = Some (ODict kvs)"
    and all: "list_all2 (\<lambda>kv kj. fst kv = fst kj \<and> represents h (snd kv) (snd kj)) kvs kjs"
    by (blast elim: represents_dictE)
  have "list_all2 (\<lambda>kv kj. fst kv = fst kj) kvs kjs"
    using all by (rule list.rel_mono_strong) simp
  with JObj v show ?thesis by (simp add: list_all2_map1 list_all2_map2)
qed (use assms in auto)

lemma comprehension_sim:
  "list_all2 (represents h) vs js \<Longrightarrow>
   rel_sum (=) (list_all2 (represents h)) (h_comprehension h a p vs) (comprehension a p js)"
proof (induction vs js rule: list_all2_induct)
  case Nil
  then show ?case by simp
next
  case (Cons v vs j js)
  have g: "rel_sum (=) (represents h) (h_get_default h v a VNone) (py_get j a)"
    unfolding py_get_def using Cons.hyps(1) by (rule get_default_sim) simp
  show ?case
  proof (cases "py_get j a")
    case (Inl x)
    with g show ?thesis by (auto elim!: rel_sum.cases)
  next
    case (Inr jv)
    with g obtain w where w: "h_get_default h v a VNone = Inr w" "represents h w jv"
      by (auto elim!: rel_sum.cases)
    have eq: "w = VStr p \<longleftrightarrow> jv = JStr p"
      using w(2) by (auto simp: represents_VStr)
    from Cons.IH show ?thesis
      using Inr w(1) eq Cons.hyps(1) by (auto elim!: rel_sum.cases)
  qed
qed

lemma narrow_sim:
  assumes "represents h v j" and "h_narrow a p v h = (r, h')"
  shows "rel_sum (=) (represents h') r (narrow a p j)"
proof (cases "truthy_arg p")
  case False
  with assms show ?thesis
    by (auto simp: h_narrow_def narrow_def truthy_arg_def split: option.splits)
next
  case True
  then obtain s where p: "p = Some s" "s \<noteq> []"
    by (auto simp: truthy_arg_def split: option.splits)
  let ?hr = "and_then (h_iter h v) (h_comprehension h a s)"
  let ?jr = "and_then (py_iter j) (comprehension a s)"
  have sim: "rel_sum (=) (list_all2 (represents h)) ?hr ?jr"
    using iter_sim[OF assms(1)]
    by (auto elim!: rel_sum.cases intro: comprehension_sim)
  have n: "narrow a p j = and_then ?jr (\<lambda>r. Inr (JArr r))"
    using p by (simp add: narrow_def and_then_def split: sum.splits)
  show ?thesis
  proof (cases ?jr)
    case (Inl x)
    with sim have "?hr = Inl x" by (auto elim!: rel_sum.cases)
    with assms(2) p Inl n show ?thesis by (auto simp: h_narrow_def)
  next
    case (Inr js)
    with sim obtain vs where vs: "?hr = Inr vs" "list_all2 (represents h) vs js"
      by (auto elim!: rel_sum.cases)
    with assms(2) p have r: "r = Inr (VRef (length h))" "h' = h @ [OList vs]"
      by (auto simp: h_narrow_def alloc_def)
    have "list_all2 (represents h') vs js"
      using vs(2) r(2) by (auto elim!: list.rel_mono_strong intro: represents_prefix)
    then have "represents h' (VRef (length h)) (JArr js)"
      using r(2) by (simp add: lookup_def)
    with r n Inr show ?thesis by simp
  qed
qed


lemma filter_data_sim:
  assumes "h_getattr h self ''_data'' = Inr d" and "represents h d j"
    and "h_filter_data self s t p h = (r, h')"
  shows "rel_sum (=) (represents h') r (filter_data j s t p)"
proof (cases "truthy j \<and> py_in ''value'' j = Inr True")
  case False
  have "py_in ''value'' j = Inl TypeError \<or> (\<exists>b. py_in ''value'' j = Inr b)"
    by (cases j) auto
  with False assms show ?thesis
    by (auto simp: h_filter_data_def filter_data_def truthy_sim in_sim)
next
  case True
  show ?thesis
  proof (cases "py_getitem j ''value''")
    case (Inl x)
    with getitem_sim[OF assms(2), of "''value''"] have g: "h_getitem h d ''value'' = Inl x"
      by (auto elim!: rel_sum.cases)
    have "h_filter_data self s t p h = (Inl x, h)"
      using assms(1,2) True g by (simp add: h_filter_data_def truthy_sim in_sim)
    with assms(3) have "r = Inl x" by simp
    moreover have "filter_data j s t p = Inl x"
      using True Inl by (simp add: filter_data_def)
    ultimately show ?thesis by simp
  next
    case (Inr jv)
    with getitem_sim[OF assms(2), of "''value''"] obtain v where
      v: "h_getitem h d ''value'' = Inr v" "represents h v jv"
      by (auto elim!: rel_sum.cases)
    obtain r1 h1 where n1: "h_narrow ''SpatialDim'' s v h = (r1, h1)" by force
    note s1 = narrow_sim[OF v(2) n1]
    have hf: "(r, h') = h_then (r1, h1) (\<lambda>x h.
           h_then (h_narrow ''TimeDimensionValue'' t x h) (h_narrow ''Dim1'' p))"
      using assms True v n1
      by (simp add: h_filter_data_def truthy_sim in_sim)
    have jf: "filter_data j s t p = and_then (narrow ''SpatialDim'' s jv) (\<lambda>x.
           and_then (narrow ''TimeDimensionValue'' t x) (narrow ''Dim1'' p))"
      using Inr by (rule filter_data_chain)
    show ?thesis
    proof (cases "narrow ''SpatialDim'' s jv")
      case (Inl x)
      with s1 hf jf show ?thesis by (auto elim!: rel_sum.cases)
    next
      case i1: (Inr j1)
      with s1 obtain v1 where v1: "r1 = Inr v1" "represents h1 v1 j1"
        by (auto elim!: rel_sum.cases)
      obtain r2 h2 where n2: "h_narrow ''TimeDimensionValue'' t v1 h1 = (r2, h2)" by force
      note s2 = narrow_sim[OF v1(2) n2]
      show ?thesis
      proof (cases "narrow ''TimeDimensionValue'' t j1")
        case (Inl x)
        with s2 hf jf i1 v1 n2 show ?thesis by (auto elim!: rel_sum.cases)
      next
        case i2: (Inr j2)
        with s2 obtain v2 where v2: "r2 = Inr v2" "represents h2 v2 j2"
          by (auto elim!: rel_sum.cases)
        have "h_narrow ''Dim1'' p v2 h2 = (r, h')"
          using hf v1 n2 v2 by simp
        from narrow_sim[OF v2(2) this] show ?thesis
          using jf i1 i2 by simp
      qed
    qed
  qed
qed

lemma len_sim:
  assumes "represents h v j"
  shows "h_len h v = py_len j"
proof (cases j)
  case (JArr js)
  with assms obtain a vs where "v = VRef a" "lookup h a = Some (OList vs)"
    "list_all2 (represents h) vs js"
    by (blast elim: represents_listE)
  with JArr show ?thesis by (auto dest: list_all2_lengthD)
next
  case (JObj kjs)
  with assms obtain a kvs where "v = VRef a" "lookup h a = Some (ODict kvs)"
    "list_all2 (\<lambda>kv kj. fst kv = fst kj \<and> represents h (snd kv) (snd kj)) kvs kjs"
    by (blast elim: represents_dictE)
  with JObj show ?thesis by (auto dest: list_all2_lengthD)
qed (use assms in auto)

lemma h_getattr_prefix:
  assumes "prefix h h'" and "h_getattr h v k = Inr d"
  shows "h_getattr h' v k = Inr d"
proof (cases v)
  case (VRef a)
  with assms(2) obtain obj where l: "lookup h a = Some obj"
    by (auto split: option.splits)
  from lookup_prefix[OF assms(1) l] l assms(2) VRef show ?thesis by simp
qed (use assms in auto)

lemma get_filtered_data_sim:
  assumes "h_getattr h self ''_data'' = Inr d" and "represents h d j"
    and "h_get_filtered_data self s t p h = (r, h')"
  shows "rel_sum (=) (rel_prod (represents h') (=)) r (get_filtered_data j s t p)"
proof -
  obtain r1 h1 where f: "h_filter_data self s t p h = (r1, h1)" by force
  note s1 = filter_data_sim[OF assms(1,2) f]
  have p1: "prefix h h1"
    using h_filter_data_frame[of h self s t p] f by simp
  show ?thesis
  proof (cases "filter_data j s t p")
    case (Inl x)
    with s1 have "r1 = Inl x" by (auto elim!: rel_sum.cases)
    with f assms(3) have "r = Inl x" by (simp add: h_get_filtered_data_def)
    with Inl show ?thesis by (simp add: get_filtered_data_def)
  next
    case (Inr jf)
    with s1 obtain vf where vf: "r1 = Inr vf" "represents h1 vf jf"
      by (auto elim!: rel_sum.cases)
    let ?h2 = "h1 @ [OList []]"
    have p2: "prefix h1 ?h2" by simp
    have d2: "h_getattr h1 self ''_data'' = Inr d"
      using p1 assms(1) by (rule h_getattr_prefix)
    have rd: "represents ?h2 d j"
      using assms(2) p1 p2 by (blast intro: represents_prefix)
    have re: "represents ?h2 (VRef (length h1)) (JArr [])"
      by (simp add: lookup_def)
    have rf: "represents ?h2 vf jf"
      using vf(2) p2 by (rule represents_prefix)
    note g = get_default_sim[OF rd re, of "''value''"]
    have hr: "(r, h') = h_then (h_get_default ?h2 d ''value'' (VRef (length h1)), ?h2) (\<lambda>v h.
             h_then (h_len h v, h) (\<lambda>total_count h.
             h_then (h_len h vf, h) (\<lambda>n h. (Inr (vf, n, total_count), h))))"
      using assms(3) f vf(1) d2 by (simp add: h_get_filtered_data_def alloc_def)
    have jr: "get_filtered_data j s t p =
          and_then (py_get_default j ''value'' (JArr [])) (\<lambda>v.
            and_then (py_len v) (\<lambda>total_count.
              and_then (py_len jf) (\<lambda>n. Inr (jf, n, total_count))))"
      using Inr by (simp add: get_filtered_data_def)
    show ?thesis
    proof (cases "py_get_default j ''value'' (JArr [])")
      case (Inl x)
      with g hr jr show ?thesis by (auto elim!: rel_sum.cases)
    next
      case i: (Inr jv)
      with g obtain v where v: "h_get_default ?h2 d ''value'' (VRef (length h1)) = Inr v"
        "represents ?h2 v jv"
        by (auto elim!: rel_sum.cases)
      from hr v(1) have hr': "(r, h') = h_then (h_len ?h2 v, ?h2) (\<lambda>total_count h.
             h_then (h_len h vf, h) (\<lambda>n h. (Inr (vf, n, total_count), h)))"
        by simp
      show ?thesis
        using hr' jr i rf len_sim[OF v(2)] len_sim[OF rf]
        by (cases "py_len jv"; cases "py_len jf") auto
    qed
  qed
qed

subsection \<open>The loaded data after any number of queries\<close>

text \<open>
  With no predicate the result is the very list that is stored under \<^verbatim>\<open>'value'\<close>, not a copy;
  the store is as before.
\<close>

lemma h_filter_data_no_predicate:
  assumes "h_getattr h self ''_data'' = Inr d" and "represents h d j"
    and "h_getitem h d ''value'' = Inr v"
  shows "h_filter_data self None None None h = (Inr v, h)"
proof -
  from getitem_sim[OF assms(2), of "''value''"] assms(3) obtain jv where
    "py_getitem j ''value'' = Inr jv"
    by (auto elim!: rel_sum.cases)
  from getitem_ok[OF this] assms show ?thesis
    by (simp add: h_filter_data_def truthy_sim in_sim h_narrow_def)
qed

text \<open>
  C9. \<^verbatim>\<open>filter_data\<close> and \<^verbatim>\<open>get_filtered_data\<close> only add new objects to the store. After any
  number of queries every object that existed is what it was, with the same elements and
  the same length, \<^verbatim>\<open>self._data\<close> is the same reference, and it still stands for the
  document that was loaded: the record sequence, its records and its length are as at
  construction.
\<close>

theorem queries_never_mutate:
  "prefix h (snd (h_filter_data self s t p h)) \<and>
   prefix h (snd (h_get_filtered_data self s t p h)) \<and>
   prefix h (queries self qs h) \<and>
   (\<forall>a < length h. lookup (queries self qs h) a = lookup h a \<and>
      h_iter (queries self qs h) (VRef a) = h_iter h (VRef a) \<and>
      h_len (queries self qs h) (VRef a) = h_len h (VRef a)) \<and>
   (h_getattr h self ''_data'' = Inr d \<and> represents h d j \<longrightarrow>
      h_getattr (queries self qs h) self ''_data'' = Inr d \<and>
      represents (queries self qs h) d j)"
proof -
  have q: "prefix h (queries self qs h)"
    by (rule queries_frame)
  have l: "lookup (queries self qs h) a = lookup h a" if "a < length h" for a
    using that lookup_prefix[OF q, of a "h ! a"] by (simp add: lookup_def)
  have "h_iter (queries self qs h) (VRef a) = h_iter h (VRef a) \<and>
        h_len (queries self qs h) (VRef a) = h_len h (VRef a)" if "a < length h" for a
    using l[OF that] by simp
  with q l show ?thesis
    using h_filter_data_frame h_get_filtered_data_frame
    by (blast intro: h_getattr_prefix represents_prefix)
qed

theorem queries_never_mutate_witness:
  "h_getattr scenario_heap (VRef 0) ''_data'' = Inr (VRef 1) \<and>
   represents scenario_heap (VRef 1) scenario \<and>
   (1::nat) < length scenario_heap \<and>
   h_getattr (queries (VRef 0) [(Some ''GUY'', None, Some ''SEX_BTSX''), (None, None, None)]
     scenario_heap) (VRef 0) ''_data'' = Inr (VRef 1) \<and>
   represents (queries (VRef 0) [(Some ''GUY'', None, Some ''SEX_BTSX''), (None, None, None)]
     scenario_heap) (VRef 1) scenario \<and>
   lookup (queries (VRef 0) [(Some ''GUY'', None, Some ''SEX_BTSX''), (None, None, None)]
     scenario_heap) 1 = Some (ODict [(''value'', VRef 2)]) \<and>
   (2::nat) < length scenario_heap \<and>
   h_len (queries (VRef 0) [(Some ''GUY'', None, Some ''SEX_BTSX''), (None, None, None)]
     scenario_heap) (VRef 2) = Inr 2"
proof -
  let ?qs = "[(Some ''GUY'', None, Some ''SEX_BTSX''), (None, None, None)]"
  have h1: "h_getattr scenario_heap (VRef 0) ''_data'' = Inr (VRef 1)"
    by (simp add: scenario_heap_def lookup_def)
  have h2: "represents scenario_heap (VRef 1) scenario"
    by (simp add: scenario_heap_def scenario_def guy_def usa_def lookup_def)
  have h3: "(1::nat) < length scenario_heap"
    by (simp add: scenario_heap_def)
  have h4: "lookup scenario_heap 1 = Some (ODict [(''value'', VRef 2)])"
    by (simp add: scenario_heap_def lookup_def)
  have h5: "(2::nat) < length scenario_heap" "h_len scenario_heap (VRef 2) = Inr 2"
    by (simp_all add: scenario_heap_def lookup_def)
  from queries_never_mutate [of scenario_heap "VRef 0" None None None ?qs "VRef 1" scenario]
    h1 h2 h3 h4 h5 show ?thesis
    by auto
qed

end
